theory Spec2Isabelle
  imports Complex_Main "HOL-Library.Sublist" "HOL-Library.Char_ord" "HOL-Library.List_Lexorder"
    "HOL-Library.Log_Nat"
begin

section \<open>Data model\<close>

text \<open>
  One row of the data frame \<open>chess\<close> is one game. The index of the frame is the column
  \<open>game_id\<close>; the other fields are the columns that \<open>chess_dashboard.py\<close> reads. A cell of
  a column may be missing (NaN in pandas), so every column value is an \<open>option\<close>, with
  \<open>None\<close> for the missing value. A data frame is the list of its rows, in row order.
\<close>

record game =
  game_id :: string
  rated :: "bool option"
  turns :: "int option"
  victory_status :: "string option"
  winner :: "string option"
  time_increment :: "string option"
  opening_shortname :: "string option"
  white_id :: "string option"
  black_id :: "string option"

text \<open>
  The five selections of the sidebar (lines 22 to 26): the lists the \<open>multiselect\<close> widgets
  return.
\<close>

record criteria =
  rated_options :: "bool option list"
  victory_options :: "string option list"
  time_increments :: "string option list"
  openings :: "string option list"
  players :: "string option list"

section \<open>Filtering (lines 29 to 37)\<close>

text \<open>
  \<open>Series.isin(values)\<close> is true for the cells whose value is an element of \<open>values\<close>;
  a missing cell is matched only when \<open>values\<close> itself holds a missing value.
\<close>

definition isin :: "'a \<Rightarrow> 'a list \<Rightarrow> bool" where
  "isin v vs = (v \<in> set vs)"

text \<open>
  Lines 29 to 34 keep the rows for which all four masks are true; lines 36 and 37 then
  keep, when \<open>players\<close> is a non-empty list, the rows of that result with the white or the
  black player selected.
\<close>

definition filtered :: "game list \<Rightarrow> criteria \<Rightarrow> game list" where
  "filtered chess c =
     (let f = filter (\<lambda>g. isin (rated g) (rated_options c) \<and>
                           isin (victory_status g) (victory_options c) \<and>
                           isin (time_increment g) (time_increments c) \<and>
                           isin (opening_shortname g) (openings c)) chess
      in if players c \<noteq> []
         then filter (\<lambda>g. isin (white_id g) (players c) \<or> isin (black_id g) (players c)) f
         else f)"

section \<open>The default selections (lines 22 to 26)\<close>

text \<open>
  \<open>Series.dropna()\<close> removes the missing cells; \<open>Series.unique()\<close> keeps the first
  occurrence of every value, in order of appearance.
\<close>

definition dropna :: "'a option list \<Rightarrow> 'a list" where
  "dropna xs = map the (filter (\<lambda>x. x \<noteq> None) xs)"

definition unique :: "'a list \<Rightarrow> 'a list" where
  "unique xs = rev (remdups (rev xs))"

text \<open>
  The options of a widget are the sorted distinct non-missing values of its column; each
  of the four attribute widgets starts with all its options selected, the player widget
  with none.
\<close>

definition options_of :: "('a::linorder) option list \<Rightarrow> 'a option list" where
  "options_of col = map Some (sort (unique (dropna col)))"

definition default_criteria :: "game list \<Rightarrow> criteria" where
  "default_criteria chess =
     \<lparr> rated_options = [Some True, Some False],
       victory_options = options_of (map victory_status chess),
       time_increments = options_of (map time_increment chess),
       openings = options_of (map opening_shortname chess),
       players = [] \<rparr>"

text \<open>
  The retention rule in the words of the specification: a constraint with an empty
  accepted set accepts everything, and the player constraint asks for the white or the
  black player when its set is not empty.
\<close>

definition retained_spec :: "criteria \<Rightarrow> game \<Rightarrow> bool" where
  "retained_spec c g =
     ((rated_options c = [] \<or> isin (rated g) (rated_options c)) \<and>
      (victory_options c = [] \<or> isin (victory_status g) (victory_options c)) \<and>
      (time_increments c = [] \<or> isin (time_increment g) (time_increments c)) \<and>
      (openings c = [] \<or> isin (opening_shortname g) (openings c)) \<and>
      (players c = [] \<or> isin (white_id g) (players c) \<or> isin (black_id g) (players c)))"

text \<open>Two sample games and two sample selections.\<close>

definition game1 :: game where
  "game1 = \<lparr> game_id = ''g1'', rated = Some True, turns = Some 40,
             victory_status = Some ''mate'', winner = Some ''White'',
             time_increment = Some ''10+0'', opening_shortname = Some ''Italian'',
             white_id = Some ''anna'', black_id = Some ''boris'' \<rparr>"

definition game2 :: game where
  "game2 = \<lparr> game_id = ''g2'', rated = Some False, turns = Some 61,
             victory_status = None, winner = Some ''Black'',
             time_increment = Some ''5+5'', opening_shortname = Some ''Sicilian'',
             white_id = Some ''boris'', black_id = Some ''carla'' \<rparr>"

definition no_selection :: criteria where
  "no_selection = \<lparr> rated_options = [], victory_options = [], time_increments = [],
                    openings = [], players = [] \<rparr>"

definition sample_selection :: criteria where
  "sample_selection = \<lparr> rated_options = [Some True, Some False],
                        victory_options = [Some ''mate''],
                        time_increments = [Some ''10+0'', Some ''5+5''],
                        openings = [Some ''Italian'', Some ''Sicilian''],
                        players = [Some ''anna''] \<rparr>"

section \<open>Floating-point arithmetic\<close>

text \<open>
  The numbers the script computes with \<open>/\<close>, \<open>*\<close> and \<open>mean()\<close> are binary64 floating-point
  numbers: every operation yields the exact result rounded to the nearest number with a
  significand of 53 bits, a tie going to the even significand. A finite binary64 number
  is a rational, so the model keeps floating-point values as rationals and rounds after
  every operation with \<open>float64\<close>.

  For \<open>x > 0\<close>, \<open>expo x\<close> is the exponent of \<open>x\<close>, the integer \<open>e\<close> with
  \<open>2 powi e \<le> x < 2 powi (e + 1)\<close>; it is found from the bit lengths of the numerator and
  the denominator, which fix it up to one. The floating-point numbers with this exponent
  are the multiples of \<open>2 powi (e - 52)\<close>, and \<open>float64 x\<close> is the multiple nearest to
  \<open>x\<close>, the one with the even factor at a tie.

  This is the rounding of binary64 wherever the magnitude of the result is in its normal
  range, from \<open>2\<close> to the power \<open>-1022\<close> up to, not including, \<open>2\<close> to the power \<open>1024\<close>.
  The script divides counts of rows, which are below \<open>2\<close> to the power \<open>63\<close>, and
  multiplies quotients of at most 1 by 100, so its results are in that range or are 0.
  Infinity and NaN are not rationals; NaN is \<open>None\<close> where it can arise.
\<close>

definition expo :: "rat \<Rightarrow> int" where
  "expo x =
     (let (p, q) = quotient_of x; d = bitlen p - bitlen q
      in if 2 powi d \<le> x then d else d - 1)"

definition round_half_even :: "rat \<Rightarrow> int" where
  "round_half_even y =
     (let f = \<lfloor>y\<rfloor>; r = y - of_int f
      in if r < 1 / 2 then f else if 1 / 2 < r then f + 1 else if even f then f else f + 1)"

definition float64 :: "rat \<Rightarrow> rat" where
  "float64 x =
     (if x = 0 then 0
      else let u = 2 powi (expo \<bar>x\<bar> - 52)
           in sgn x * of_int (round_half_even (\<bar>x\<bar> / u)) * u)"

section \<open>Metrics (lines 47 to 49)\<close>

text \<open>
  An integer becomes a floating-point number before it is divided; the conversion rounds
  too, and is exact below \<open>2\<close> to the power \<open>53\<close>. A division is the one place that can
  fail, so it returns an error for a zero divisor.
\<close>

datatype py_error = ZeroDivisionError | KeyError string



text \<open>
  \<open>Series.mean()\<close> skips the missing cells and is NaN when no cell is left, in
  particular on a column without rows; it raises nothing. Otherwise it is the
  floating-point sum of the cells divided by their number; the sum is taken as the
  rounded exact sum, which it is as long as the sums stay below \<open>2\<close> to the power \<open>53\<close>
  in magnitude.
\<close>

definition mean :: "int option list \<Rightarrow> rat option" where
  "mean col =
     (let xs = dropna col
      in if xs = [] then None
         else Some (float64 (float64 (of_int (sum_list xs)) / float64 (of_nat (length xs)))))"

definition avg_turns :: "game list \<Rightarrow> rat option" where
  "avg_turns filtered_view = mean (map turns filtered_view)"





section \<open>Top openings by white wins (lines 102 and 103)\<close>

text \<open>
  \<open>Series.value_counts()\<close> drops the missing cells, counts every distinct value and orders
  the values by count, largest first. Values with equal counts are kept in order of first
  appearance here; the properties below do not depend on the order among equal counts.
\<close>

definition value_counts :: "'a option list \<Rightarrow> ('a \<times> nat) list" where
  "value_counts col =
     (let xs = dropna col
      in sort_key (\<lambda>kc. - int (snd kc)) (map (\<lambda>k. (k, count_list xs k)) (unique xs)))"

text \<open>
  Line 102 counts the openings of the games White won and keeps the first rows with
  \<open>head(10)\<close>; the number of rows kept is a parameter here, 10 in the script.
\<close>

definition openings_head :: "nat \<Rightarrow> game list \<Rightarrow> (string \<times> nat) list" where
  "openings_head n filtered_view =
     take n (value_counts (map opening_shortname
                             (filter (\<lambda>g. winner g = Some ''White'') filtered_view)))"

definition openings_plot :: "game list \<Rightarrow> (string \<times> nat) list" where
  "openings_plot filtered_view = openings_head 10 filtered_view"

text \<open>
  The count of the specification: the number of games of the view that White won with
  the given opening.
\<close>

definition white_wins_of :: "game list \<Rightarrow> string \<Rightarrow> nat" where
  "white_wins_of v opn =
     length (filter (\<lambda>g. winner g = Some ''White'' \<and> opening_shortname g = Some opn) v)"

section \<open>Top players (lines 110 to 116)\<close>

text \<open>
  A series is the list of its entries, label and value, with distinct labels; \<open>map_of\<close>
  reads the value at a label. An arithmetic operation on two series aligns them first:
  the result has the labels of both. The labels stay as they are when both series have
  the same ones, or when one has none; otherwise they come out sorted. The order of the
  labels only decides the order among players with equal \<open>Games\<close>, which no property below
  depends on.
\<close>

definition index_union :: "('k::linorder) list \<Rightarrow> 'k list \<Rightarrow> 'k list" where
  "index_union a b = (if a = b \<or> b = [] then a else if a = [] then b else sort (unique (a @ b)))"

text \<open>
  \<open>s1.add(s2, fill_value=0)\<close>: at every label of the result, the sum of the two values,
  a value missing on one side counting as 0.
\<close>

definition fill0 :: "nat option \<Rightarrow> nat" where
  "fill0 x = (case x of None \<Rightarrow> 0 | Some c \<Rightarrow> c)"

definition add_fill0 :: "(('k::linorder) \<times> nat) list \<Rightarrow> ('k \<times> nat) list \<Rightarrow> ('k \<times> nat) list" where
  "add_fill0 s1 s2 =
     map (\<lambda>k. (k, fill0 (map_of s1 k) + fill0 (map_of s2 k)))
       (index_union (map fst s1) (map fst s2))"

text \<open>
  \<open>s1 / s2\<close> has no fill value: at a label missing on either side the quotient is NaN.
  Elsewhere it is the floating-point quotient of the two counts. (A zero divisor does not
  occur: the divisors are sums of value counts, which are positive.) Line 114 then
  multiplies every quotient by 100, in floating point again; NaN stays NaN.
\<close>

definition div_aligned :: "nat option \<Rightarrow> nat option \<Rightarrow> rat option" where
  "div_aligned x y =
     (case (x, y) of
        (Some a, Some b) \<Rightarrow>
          (if b = 0 then None else Some (float64 (float64 (of_nat a) / float64 (of_nat b))))
      | _ \<Rightarrow> None)"

definition series_div :: "(('k::linorder) \<times> nat) list \<Rightarrow> ('k \<times> nat) list \<Rightarrow> ('k \<times> rat option) list" where
  "series_div s1 s2 =
     map (\<lambda>k. (k, div_aligned (map_of s1 k) (map_of s2 k)))
       (index_union (map fst s1) (map fst s2))"

definition times100 :: "('k \<times> rat option) list \<Rightarrow> ('k \<times> rat option) list" where
  "times100 s = map (\<lambda>(k, q). (k, map_option (\<lambda>x. float64 (x * 100)) q)) s"

text \<open>Lines 110 to 114.\<close>

definition total_wins :: "game list \<Rightarrow> (string \<times> nat) list" where
  "total_wins v =
     add_fill0 (value_counts (map white_id (filter (\<lambda>g. winner g = Some ''White'') v)))
               (value_counts (map black_id (filter (\<lambda>g. winner g = Some ''Black'') v)))"

definition total_games :: "game list \<Rightarrow> (string \<times> nat) list" where
  "total_games v = add_fill0 (value_counts (map white_id v)) (value_counts (map black_id v))"

definition winrate :: "game list \<Rightarrow> (string \<times> rat option) list" where
  "winrate v = times100 (series_div (total_wins v) (total_games v))"

text \<open>
  Line 115 builds the frame with the columns \<open>Games\<close> and \<open>WinRate\<close> over the labels of
  both series, drops the rows with a missing cell with \<open>dropna()\<close>, sorts by \<open>Games\<close>,
  largest first, and keeps the first rows with \<open>head(10)\<close>; the number of rows kept is a
  parameter here, 10 in the script. Rows with equal \<open>Games\<close> are kept in the order they
  have before the sort; the properties below do not depend on that order.
\<close>

definition stats_frame :: "game list \<Rightarrow> (string \<times> nat option \<times> rat option) list" where
  "stats_frame v =
     map (\<lambda>k. (k, map_of (total_games v) k, Option.bind (map_of (winrate v) k) id))
       (index_union (map fst (total_games v)) (map fst (winrate v)))"

fun dropna_rows :: "('k \<times> 'a option \<times> 'b option) list \<Rightarrow> ('k \<times> 'a \<times> 'b) list" where
  "dropna_rows [] = []"
| "dropna_rows ((k, Some a, Some b) # rs) = (k, a, b) # dropna_rows rs"
| "dropna_rows (_ # rs) = dropna_rows rs"

definition sort_games_desc :: "('k \<times> nat \<times> 'b) list \<Rightarrow> ('k \<times> nat \<times> 'b) list" where
  "sort_games_desc rs = sort_key (\<lambda>r. - int (fst (snd r))) rs"

definition player_stats_head :: "nat \<Rightarrow> game list \<Rightarrow> (string \<times> nat \<times> rat) list" where
  "player_stats_head n v = take n (sort_games_desc (dropna_rows (stats_frame v)))"

definition player_stats :: "game list \<Rightarrow> (string \<times> nat \<times> rat) list" where
  "player_stats filtered_view = player_stats_head 10 filtered_view"

text \<open>
  The counts of the specification for a player: the games played, as White or as Black,
  and the games won, as White or as Black; the win rate as line 114 computes it from
  these counts, and the row of the statistics with these values.
\<close>

definition games_of :: "game list \<Rightarrow> string \<Rightarrow> nat" where
  "games_of v p =
     length (filter (\<lambda>g. white_id g = Some p) v) + length (filter (\<lambda>g. black_id g = Some p) v)"

definition wins_of :: "game list \<Rightarrow> string \<Rightarrow> nat" where
  "wins_of v p =
     length (filter (\<lambda>g. winner g = Some ''White'' \<and> white_id g = Some p) v) +
     length (filter (\<lambda>g. winner g = Some ''Black'' \<and> black_id g = Some p) v)"

definition rate_of :: "game list \<Rightarrow> string \<Rightarrow> rat" where
  "rate_of v p =
     float64 (float64 (float64 (of_nat (wins_of v p)) / float64 (of_nat (games_of v p))) * 100)"

definition stats_row :: "game list \<Rightarrow> string \<Rightarrow> string \<times> nat \<times> rat" where
  "stats_row v p = (p, games_of v p, rate_of v p)"

section \<open>Loading (lines 11 to 15)\<close>

text \<open>
  \<open>load_data\<close> works on the frame that \<open>read_csv\<close> has parsed, whatever its columns are,
  so the loader is modelled on a frame of named columns: each column is its name and the
  list of its cells, one cell per row, and the index is either the row numbers that
  \<open>read_csv\<close> gives or a list of labels, one per row. The parsed frame is the input.
\<close>

datatype 'c index = RangeIndex nat | Index "'c list"

record 'c dataframe =
  index :: "'c index"
  cols :: "(string \<times> 'c list) list"

text \<open>\<open>drop(labels, axis=1, errors='ignore')\<close> removes the named columns that exist.\<close>

definition drop_columns :: "string list \<Rightarrow> 'c dataframe \<Rightarrow> 'c dataframe" where
  "drop_columns labels df = df\<lparr>cols := filter (\<lambda>c. fst c \<notin> set labels) (cols df)\<rparr>"

text \<open>
  \<open>set_index(key)\<close> raises \<open>KeyError\<close> when there is no column \<open>key\<close>; otherwise the
  cells of that column become the row labels and the column is removed. The script
  leaves \<open>verify_integrity\<close> at its default, so the labels are not checked for duplicates.
\<close>

definition set_index :: "string \<Rightarrow> 'c dataframe \<Rightarrow> py_error + 'c dataframe" where
  "set_index key df =
     (case map_of (cols df) key of
        None \<Rightarrow> Inl (KeyError key)
      | Some keys \<Rightarrow> Inr \<lparr>index = Index keys, cols = filter (\<lambda>c. fst c \<noteq> key) (cols df)\<rparr>)"

definition load_data :: "'c dataframe \<Rightarrow> py_error + 'c dataframe" where
  "load_data csv = set_index ''game_id'' (drop_columns [''Unnamed: 15'', ''moves''] csv)"

text \<open>A parsed file with three rows, two of them with the same \<open>game_id\<close>.\<close>

definition raw_sample :: "string dataframe" where
  "raw_sample = \<lparr> index = RangeIndex 3,
                  cols = [(''game_id'', [''g1'', ''g2'', ''g1'']),
                          (''turns'', [''40'', ''61'', ''13'']),
                          (''moves'', [''e4 e5'', ''d4 d5'', ''c4 c5'']),
                          (''winner'', [''White'', ''Black'', ''Draw''])] \<rparr>"

section \<open>Properties of the filter\<close>

text \<open>
  C5. For every data frame and every selection, the filtered frame is a subset of the
  frame by its \<open>game_id\<close> keys, and its rows are in the same relative order as in the
  frame: it is a subsequence of the frame.
\<close>

theorem filtered_subseq:
  "subseq (filtered chess c) chess \<and>
   set (map game_id (filtered chess c)) \<subseteq> set (map game_id chess)"
proof -
  have "subseq (filtered chess c) chess"
    unfolding filtered_def Let_def
    by (auto intro: subseq_order.trans [OF subseq_filter_left subseq_filter_left])
  moreover have "set (filtered chess c) \<subseteq> set chess"
    unfolding filtered_def Let_def by auto
  ultimately show ?thesis by auto
qed

subsection \<open>Helper facts\<close>

lemma filtered_eq_filter:
  "filtered chess c =
     filter (\<lambda>g. isin (rated g) (rated_options c) \<and>
                 isin (victory_status g) (victory_options c) \<and>
                 isin (time_increment g) (time_increments c) \<and>
                 isin (opening_shortname g) (openings c) \<and>
                 (players c = [] \<or> isin (white_id g) (players c) \<or> isin (black_id g) (players c)))
       chess"
  unfolding filtered_def Let_def
  by (cases "players c = []") (auto intro: filter_cong)

lemma set_dropna: "set (dropna xs) = {x. Some x \<in> set xs}"
  unfolding dropna_def by force

lemma set_unique: "set (unique xs) = set xs"
  unfolding unique_def by simp

lemma set_options_of: "set (options_of col) = set col - {None}"
proof -
  have "Some ` {x. Some x \<in> set col} = set col - {None}"
  proof (rule set_eqI)
    fix v :: "'a option"
    show "v \<in> Some ` {x. Some x \<in> set col} \<longleftrightarrow> v \<in> set col - {None}"
      by (cases v) auto
  qed
  then show ?thesis
    unfolding options_of_def by (simp add: set_dropna set_unique)
qed

lemma isin_options_of: "isin v (options_of col) \<longleftrightarrow> v \<in> set col \<and> v \<noteq> None"
  unfolding isin_def by (auto simp: set_options_of)

lemma filtered_no_selection: "filtered chess no_selection = []"
  by (simp add: filtered_def isin_def no_selection_def)

lemma filtered_default_sample:
  "filtered [game1, game2] (default_criteria [game1, game2]) = [game1]"
  by (simp add: filtered_eq_filter isin_options_of default_criteria_def)
     (simp add: isin_def game1_def game2_def)

subsection \<open>Claims\<close>

text \<open>
  C3, as stated: a row is retained if and only if it satisfies every constraint whose
  accepted set is not empty, and the player constraint when the player set is not empty.
  The code does not treat an empty accepted set as "accept all": with nothing selected
  anywhere, the specification's rule retains \<open>game1\<close> and the code drops it.
\<close>

theorem filtered_retained_spec_counterexample:
  "retained_spec no_selection game1 \<and> game1 \<notin> set (filtered [game1] no_selection)"
  by (simp add: retained_spec_def filtered_def isin_def no_selection_def)

text \<open>
  C3, amended: the four attribute constraints are applied always, whatever their accepted
  sets (an empty accepted set retains nothing); only the player constraint is skipped when
  its set is empty. The filtered frame is the frame restricted to the rows whose four
  attribute values are each a member of the accepted set, and, when the player set is not
  empty, whose white or black player is a member of it.
\<close>

theorem filtered_retains_iff:
  "filtered chess c =
     filter (\<lambda>g. rated g \<in> set (rated_options c) \<and>
                 victory_status g \<in> set (victory_options c) \<and>
                 time_increment g \<in> set (time_increments c) \<and>
                 opening_shortname g \<in> set (openings c) \<and>
                 (players c = [] \<or> white_id g \<in> set (players c) \<or> black_id g \<in> set (players c)))
       chess"
  using filtered_eq_filter [of chess c] by (simp add: isin_def)

theorem filtered_retains_iff_witness:
  "filtered [game1, game2] sample_selection = [game1]"
  using filtered_retains_iff [of "[game1, game2]" sample_selection]
  by (simp add: game1_def game2_def sample_selection_def)

text \<open>
  C4, as stated: filtering with "accept all" on every attribute and no player returns the
  frame unchanged. It fails under both readings of "accept all": with empty accepted sets
  (the specification's encoding) the code returns no row at all, and with every option of
  every widget selected (the dashboard's defaults) the code drops \<open>game2\<close>, whose
  \<open>victory_status\<close> is missing.
\<close>

theorem filtered_identity_counterexample:
  "filtered [game1, game2] no_selection \<noteq> [game1, game2] \<and>
   filtered [game1, game2] (default_criteria [game1, game2]) \<noteq> [game1, game2]"
  by (simp add: filtered_no_selection filtered_default_sample)

text \<open>
  C4, amended: when no row of the frame has a missing \<open>rated\<close>, \<open>victory_status\<close>,
  \<open>time_increment\<close> or \<open>opening_shortname\<close>, filtering with the default selection (every
  option of the four attribute widgets selected, no player selected) returns the frame
  unchanged: the same rows in the same order.
\<close>

theorem filtered_default_identity:
  assumes "\<forall>g \<in> set chess. rated g \<noteq> None \<and> victory_status g \<noteq> None \<and>
             time_increment g \<noteq> None \<and> opening_shortname g \<noteq> None"
  shows "filtered chess (default_criteria chess) = chess"
proof -
  have "\<forall>g \<in> set chess.
          isin (rated g) [Some True, Some False] \<and>
          isin (victory_status g) (options_of (map victory_status chess)) \<and>
          isin (time_increment g) (options_of (map time_increment chess)) \<and>
          isin (opening_shortname g) (options_of (map opening_shortname chess))"
  proof
    fix g assume g: "g \<in> set chess"
    with assms obtain b where "rated g = Some b" by auto
    then have "isin (rated g) [Some True, Some False]"
      by (cases b) (simp_all add: isin_def)
    with g assms show "isin (rated g) [Some True, Some False] \<and>
          isin (victory_status g) (options_of (map victory_status chess)) \<and>
          isin (time_increment g) (options_of (map time_increment chess)) \<and>
          isin (opening_shortname g) (options_of (map opening_shortname chess))"
      by (simp add: isin_options_of)
  qed
  then show ?thesis
    by (simp add: filtered_eq_filter default_criteria_def filter_id_conv)
qed

theorem filtered_default_identity_witness:
  "filtered [game1, game1] (default_criteria [game1, game1]) = [game1, game1]"
  using filtered_default_identity [of "[game1, game1]"]
  by (simp add: game1_def)

text \<open>
  C10. When the accepted sets for \<open>rated\<close>, \<open>victory_status\<close>, \<open>time_increment\<close> and
  \<open>opening_shortname\<close> hold no missing value, no row of the filtered frame has a missing
  value in any of these four columns: the four membership tests are applied always, so
  a row with a missing value never passes.
\<close>

theorem filtered_no_null:
  assumes "None \<notin> set (rated_options c)" and "None \<notin> set (victory_options c)"
    and "None \<notin> set (time_increments c)" and "None \<notin> set (openings c)"
  shows "\<forall>g \<in> set (filtered chess c).
           rated g \<noteq> None \<and> victory_status g \<noteq> None \<and>
           time_increment g \<noteq> None \<and> opening_shortname g \<noteq> None"
proof
  fix g assume "g \<in> set (filtered chess c)"
  then have "rated g \<in> set (rated_options c)" "victory_status g \<in> set (victory_options c)"
    "time_increment g \<in> set (time_increments c)" "opening_shortname g \<in> set (openings c)"
    by (simp_all add: filtered_eq_filter isin_def)
  with assms show "rated g \<noteq> None \<and> victory_status g \<noteq> None \<and>
           time_increment g \<noteq> None \<and> opening_shortname g \<noteq> None"
    by metis
qed

theorem filtered_no_null_witness:
  "filtered [game1, game2] (default_criteria [game1, game2]) = [game1] \<and>
   victory_status game2 = None \<and> rated game1 \<noteq> None \<and> victory_status game1 \<noteq> None \<and>
   time_increment game1 \<noteq> None \<and> opening_shortname game1 \<noteq> None"
proof -
  let ?c = "default_criteria [game1, game2]"
  have n: "None \<notin> set (rated_options ?c)" "None \<notin> set (victory_options ?c)"
    "None \<notin> set (time_increments ?c)" "None \<notin> set (openings ?c)"
    by (simp_all add: default_criteria_def set_options_of)
  have f: "filtered [game1, game2] ?c = [game1]"
    by (rule filtered_default_sample)
  from filtered_no_null [OF n, of "[game1, game2]"] f show ?thesis
    by (simp add: game2_def)
qed

section \<open>Properties of floating-point rounding\<close>







lemma float64_nonneg:
  assumes "0 \<le> x"
  shows "0 \<le> float64 x"
proof (cases "x = 0")
  case True
  then show ?thesis by (simp add: float64_def)
next
  case False
  with assms have x: "0 < x" by simp
  let ?u = "(2::rat) powi (expo x - 52)"
  have "0 \<le> x / ?u" using x by simp
  then have "0 \<le> round_half_even (x / ?u)"
    unfolding round_half_even_def Let_def by auto
  then show ?thesis
    using x by (simp add: float64_def Let_def)
qed


section \<open>Properties of the metrics\<close>










text \<open>
  C2. On the empty view \<open>avg_turns\<close> is NaN, not 0: line 48 takes the mean with no guard
  for the empty view, while line 49 guards the same case and yields 0.
\<close>

theorem avg_turns_empty:
  "avg_turns [] = None \<and> avg_turns [] \<noteq> Some 0"
  by (simp add: avg_turns_def mean_def dropna_def)

section \<open>Properties of value counts and of the top openings\<close>

lemma distinct_unique: "distinct (unique xs)"
  unfolding unique_def by simp

lemma sorted_desc_sort_key:
  "sorted_wrt (\<lambda>a b. f b \<le> f a) (sort_key (\<lambda>x. - int (f x)) xs)"
proof -
  have "sorted (map (\<lambda>x. - int (f x)) (sort_key (\<lambda>x. - int (f x)) xs))"
    by (rule sorted_sort_key)
  then show ?thesis
    by (simp add: sorted_wrt_map)
qed

lemma take_sorted_top:
  assumes "sorted_wrt (\<lambda>a b. f b \<le> (f a :: nat)) xs"
    and "x \<in> set xs" and "x \<notin> set (take n xs)" and "y \<in> set (take n xs)"
  shows "f x \<le> f y"
proof -
  from assms(2,3) have "x \<in> set (drop n xs)"
    by (metis Un_iff append_take_drop_id set_append)
  moreover have "\<forall>a \<in> set (take n xs). \<forall>b \<in> set (drop n xs). f b \<le> f a"
    using sorted_wrt_append [of "\<lambda>a b. f b \<le> f a" "take n xs" "drop n xs"] assms(1)
    by simp
  ultimately show ?thesis
    using assms(4) by blast
qed

lemma count_list_dropna_map:
  "count_list (dropna (map f v)) k = length (filter (\<lambda>g. f g = Some k) v)"
proof (induction v)
  case Nil
  show ?case by (simp add: dropna_def)
next
  case (Cons g v)
  then show ?case
    by (cases "f g") (auto simp: dropna_def)
qed

lemma set_value_counts:
  "set (value_counts col) = (\<lambda>k. (k, count_list (dropna col) k)) ` set (dropna col)"
  by (simp add: value_counts_def Let_def set_unique)

lemma map_fst_value_counts_distinct: "distinct (map fst (value_counts col))"
proof -
  have "distinct (map fst (map (\<lambda>k. (k, count_list (dropna col) k)) (unique (dropna col))))"
    by (simp add: o_def distinct_unique)
  then show ?thesis
    unfolding value_counts_def Let_def
    by (metis (no_types, lifting) distinct_map distinct_sort set_sort inj_on_cong)
qed

lemma sorted_value_counts: "sorted_wrt (\<lambda>a b. snd b \<le> snd a) (value_counts col)"
  unfolding value_counts_def Let_def by (rule sorted_desc_sort_key)

lemma map_of_value_counts:
  "map_of (value_counts col) k =
     (if k \<in> set (dropna col) then Some (count_list (dropna col) k) else None)"
proof (cases "k \<in> set (dropna col)")
  case True
  then have "(k, count_list (dropna col) k) \<in> set (value_counts col)"
    by (simp add: set_value_counts)
  with map_fst_value_counts_distinct [of col] True show ?thesis
    by simp
next
  case False
  then have "k \<notin> fst ` set (value_counts col)"
    by (auto simp: set_value_counts)
  with False show ?thesis
    by (simp add: map_of_eq_None_iff)
qed

lemma value_counts_positive: "(k, c) \<in> set (value_counts col) \<Longrightarrow> 0 < c"
proof -
  assume "(k, c) \<in> set (value_counts col)"
  then have "k \<in> set (dropna col)" and "c = count_list (dropna col) k"
    by (auto simp: set_value_counts)
  then show "0 < c"
    using count_list_0_iff [of "dropna col" k] by simp
qed


lemma length_value_counts: "length (value_counts col) = card (set (dropna col))"
proof -
  have "length (value_counts col) = length (unique (dropna col))"
    by (simp add: value_counts_def Let_def)
  also have "\<dots> = card (set (unique (dropna col)))"
    by (simp add: distinct_card distinct_unique)
  finally show ?thesis by (simp add: set_unique)
qed

lemma white_count:
  "count_list (dropna (map opening_shortname (filter (\<lambda>g. winner g = Some ''White'') v))) opn =
     white_wins_of v opn"
  by (simp add: count_list_dropna_map white_wins_of_def conj_commute)

lemma white_openings_set:
  "set (dropna (map opening_shortname (filter (\<lambda>g. winner g = Some ''White'') v))) =
     {opn. 0 < white_wins_of v opn}"
proof -
  have "opn \<in> set (dropna (map opening_shortname (filter (\<lambda>g. winner g = Some ''White'') v)))
          \<longleftrightarrow> 0 < white_wins_of v opn" for opn
    using count_list_0_iff
      [of "dropna (map opening_shortname (filter (\<lambda>g. winner g = Some ''White'') v))" opn]
    by (auto simp: white_count)
  then show ?thesis by blast
qed

lemma openings_all_entries:
  "set (value_counts (map opening_shortname (filter (\<lambda>g. winner g = Some ''White'') v))) =
     (\<lambda>opn. (opn, white_wins_of v opn)) ` {opn. 0 < white_wins_of v opn}"
  by (simp add: set_value_counts white_count white_openings_set)

text \<open>
  C6. For every view and every \<open>n\<close>, the top openings are the openings of the games
  White won, each once, each with the number of games White won with it (a positive
  number), in descending order of that number, \<open>n\<close> of them or all if there are fewer; an
  opening White won with that is left out has no more white wins than any opening kept.
  On the three records of the example the result is Italian with 2 wins.
\<close>

theorem openings_head_top:
  "distinct (map fst (openings_head n v)) \<and>
   (\<forall>(opn, c) \<in> set (openings_head n v). c = white_wins_of v opn \<and> 0 < c) \<and>
   sorted_wrt (\<lambda>a b. snd b \<le> snd a) (openings_head n v) \<and>
   length (openings_head n v) = min n (card {opn. 0 < white_wins_of v opn}) \<and>
   (\<forall>opn. 0 < white_wins_of v opn \<longrightarrow> opn \<notin> fst ` set (openings_head n v) \<longrightarrow>
      (\<forall>(opn', c') \<in> set (openings_head n v). white_wins_of v opn \<le> c')) \<and>
   openings_head 10
     [a\<lparr>game_id := ''1'', winner := Some ''White'', opening_shortname := Some ''Italian''\<rparr>,
      b\<lparr>game_id := ''2'', winner := Some ''White'', opening_shortname := Some ''Italian''\<rparr>,
      c\<lparr>game_id := ''3'', winner := Some ''Black'', opening_shortname := Some ''Sicilian''\<rparr>]
     = [(''Italian'', 2)]"
proof -
  let ?col = "map opening_shortname (filter (\<lambda>g. winner g = Some ''White'') v)"
  let ?all = "value_counts ?col"
  have r: "openings_head n v = take n ?all"
    by (simp add: openings_head_def)
  have sub: "set (openings_head n v) \<subseteq> set ?all"
    unfolding r by (rule set_take_subset)
  have d: "distinct (map fst (openings_head n v))"
    unfolding r take_map [symmetric]
    by (rule distinct_take) (rule map_fst_value_counts_distinct)
  have e: "\<forall>(opn, c) \<in> set (openings_head n v). c = white_wins_of v opn \<and> 0 < c"
    using sub by (auto simp: openings_all_entries)
  have s: "sorted_wrt (\<lambda>a b. snd b \<le> snd a) (openings_head n v)"
    unfolding r by (rule sorted_wrt_take) (rule sorted_value_counts)
  have l: "length (openings_head n v) = min n (card {opn. 0 < white_wins_of v opn})"
    unfolding r by (simp add: length_value_counts white_openings_set min.commute)
  have t: "\<forall>opn. 0 < white_wins_of v opn \<longrightarrow> opn \<notin> fst ` set (openings_head n v) \<longrightarrow>
      (\<forall>(opn', c') \<in> set (openings_head n v). white_wins_of v opn \<le> c')"
  proof (intro allI impI ballI)
    fix opn y
    assume pos: "0 < white_wins_of v opn"
      and out: "opn \<notin> fst ` set (openings_head n v)"
      and y: "y \<in> set (openings_head n v)"
    let ?x = "(opn, white_wins_of v opn)"
    from pos have "?x \<in> set ?all"
      by (simp add: openings_all_entries)
    moreover from out have "?x \<notin> set (take n ?all)"
      unfolding r by force
    ultimately have "snd ?x \<le> snd y"
      using take_sorted_top [of snd ?all ?x n y] sorted_value_counts [of ?col] y
      unfolding r by simp
    then show "case y of (opn', c') \<Rightarrow> white_wins_of v opn \<le> c'"
      by (simp add: case_prod_beta)
  qed
  have x: "openings_head 10
     [a\<lparr>game_id := ''1'', winner := Some ''White'', opening_shortname := Some ''Italian''\<rparr>,
      b\<lparr>game_id := ''2'', winner := Some ''White'', opening_shortname := Some ''Italian''\<rparr>,
      c\<lparr>game_id := ''3'', winner := Some ''Black'', opening_shortname := Some ''Sicilian''\<rparr>]
     = [(''Italian'', 2)]"
    by (simp add: openings_head_def value_counts_def dropna_def unique_def)
  from d e s l t x show ?thesis by blast
qed

theorem openings_head_top_witness:
  "0 < white_wins_of [game1, game1, game2\<lparr>winner := Some ''White''\<rparr>] ''Sicilian'' \<and>
   ''Sicilian'' \<notin> fst ` set (openings_head 1 [game1, game1, game2\<lparr>winner := Some ''White''\<rparr>]) \<and>
   openings_head 1 [game1, game1, game2\<lparr>winner := Some ''White''\<rparr>] = [(''Italian'', 2)] \<and>
   white_wins_of [game1, game1, game2\<lparr>winner := Some ''White''\<rparr>] ''Sicilian'' \<le> 2"
proof -
  let ?v = "[game1, game1, game2\<lparr>winner := Some ''White''\<rparr>]"
  have r: "openings_head 1 ?v = [(''Italian'', 2)]"
    by (simp add: openings_head_def value_counts_def dropna_def unique_def game1_def game2_def)
  have w: "white_wins_of ?v ''Sicilian'' = 1"
    by (simp add: white_wins_of_def game1_def game2_def)
  from openings_head_top [of 1 ?v] r w show ?thesis
    by simp
qed

section \<open>Properties of the loader\<close>

lemma map_of_filter_other:
  "k \<notin> set labels \<Longrightarrow> map_of (filter (\<lambda>c. fst c \<notin> set labels) cs) k = map_of cs k"
  by (induction cs) auto

text \<open>
  C9. When the parsed file has a column \<open>game_id\<close>, \<open>load_data\<close> succeeds whatever the
  keys are, and the row labels of the result are all the cells of that column, in row
  order: rows with the same \<open>game_id\<close> are all kept, none is dropped or overwritten, and
  no duplicate-key error is raised. The other columns keep all their cells.
\<close>

theorem load_data_keeps_duplicates:
  assumes "map_of (cols csv) ''game_id'' = Some keys"
  shows "load_data csv =
           Inr \<lparr>index = Index keys,
                cols = filter (\<lambda>c. fst c \<notin> {''Unnamed: 15'', ''moves'', ''game_id''}) (cols csv)\<rparr>"
proof -
  have "map_of (cols (drop_columns [''Unnamed: 15'', ''moves''] csv)) ''game_id'' = Some keys"
    using assms map_of_filter_other [of "''game_id''" "[''Unnamed: 15'', ''moves'']" "cols csv"]
    by (simp add: drop_columns_def)
  then show ?thesis
    by (auto simp: load_data_def set_index_def drop_columns_def intro: filter_cong)
qed

theorem load_data_keeps_duplicates_witness:
  "load_data raw_sample =
     Inr \<lparr>index = Index [''g1'', ''g2'', ''g1''],
          cols = [(''turns'', [''40'', ''61'', ''13'']), (''winner'', [''White'', ''Black'', ''Draw''])]\<rparr>"
  using load_data_keeps_duplicates [of raw_sample "[''g1'', ''g2'', ''g1'']"]
  by (simp add: raw_sample_def)

section \<open>Properties of the top players\<close>

lemma set_index_union: "set (index_union a b) = set a \<union> set b"
  by (auto simp: index_union_def set_unique)

lemma distinct_index_union:
  "distinct a \<Longrightarrow> distinct b \<Longrightarrow> distinct (index_union a b)"
  by (simp add: index_union_def distinct_unique)

lemma map_of_tabulate:
  "map_of (map (\<lambda>k. (k, f k)) ks) k = (if k \<in> set ks then Some (f k) else None)"
  by (induction ks) auto

lemma map_fst_tabulate: "map fst (map (\<lambda>k. (k, f k)) ks) = ks"
  by (simp add: o_def)

lemma fill0_value_counts:
  "fill0 (map_of (value_counts col) k) = count_list (dropna col) k"
  using count_list_0_iff [of "dropna col" k]
  by (auto simp: map_of_value_counts fill0_def)

lemma keys_value_counts: "set (map fst (value_counts col)) = set (dropna col)"
  by (force simp: set_value_counts)

lemma keys_add_fill0: "map fst (add_fill0 s1 s2) = index_union (map fst s1) (map fst s2)"
  by (simp add: add_fill0_def o_def)

lemma map_of_add_fill0:
  "map_of (add_fill0 s1 s2) k =
     (if k \<in> set (map fst s1) \<union> set (map fst s2)
      then Some (fill0 (map_of s1 k) + fill0 (map_of s2 k)) else None)"
  unfolding add_fill0_def by (simp only: map_of_tabulate set_index_union)

lemma in_dropna_iff: "k \<in> set (dropna (map f v)) \<longleftrightarrow> 0 < length (filter (\<lambda>g. f g = Some k) v)"
  using count_list_0_iff [of "dropna (map f v)" k]
  by (auto simp: count_list_dropna_map)

lemma filter_filter_count:
  "count_list (dropna (map f (filter P v))) k = length (filter (\<lambda>g. P g \<and> f g = Some k) v)"
  by (simp add: count_list_dropna_map)

lemma keys_total_games: "set (map fst (total_games v)) = {p. 0 < games_of v p}"
proof -
  have "p \<in> set (map fst (total_games v)) \<longleftrightarrow> 0 < games_of v p" for p
    unfolding total_games_def keys_add_fill0 set_index_union keys_value_counts
    by (simp add: in_dropna_iff games_of_def)
  then show ?thesis by blast
qed

lemma keys_total_wins: "set (map fst (total_wins v)) = {p. 0 < wins_of v p}"
proof -
  have "p \<in> set (map fst (total_wins v)) \<longleftrightarrow> 0 < wins_of v p" for p
    unfolding total_wins_def keys_add_fill0 set_index_union keys_value_counts
    using count_list_0_iff
      [of "dropna (map white_id (filter (\<lambda>g. winner g = Some ''White'') v))" p]
      count_list_0_iff
      [of "dropna (map black_id (filter (\<lambda>g. winner g = Some ''Black'') v))" p]
    by (auto simp: filter_filter_count wins_of_def)
  then show ?thesis by blast
qed

lemma map_of_total_games:
  "map_of (total_games v) p = (if 0 < games_of v p then Some (games_of v p) else None)"
proof -
  have "fill0 (map_of (value_counts (map white_id v)) p) +
        fill0 (map_of (value_counts (map black_id v)) p) = games_of v p"
    by (simp add: fill0_value_counts count_list_dropna_map games_of_def)
  moreover have "p \<in> set (map fst (value_counts (map white_id v))) \<union>
                     set (map fst (value_counts (map black_id v))) \<longleftrightarrow> 0 < games_of v p"
    using keys_total_games [of v]
    by (simp only: total_games_def keys_add_fill0 set_index_union) blast
  ultimately show ?thesis
    unfolding total_games_def by (simp only: map_of_add_fill0)
qed

lemma map_of_total_wins:
  "map_of (total_wins v) p = (if 0 < wins_of v p then Some (wins_of v p) else None)"
proof -
  let ?w = "value_counts (map white_id (filter (\<lambda>g. winner g = Some ''White'') v))"
  let ?b = "value_counts (map black_id (filter (\<lambda>g. winner g = Some ''Black'') v))"
  have "fill0 (map_of ?w p) + fill0 (map_of ?b p) = wins_of v p"
    by (simp add: fill0_value_counts filter_filter_count wins_of_def)
  moreover have "p \<in> set (map fst ?w) \<union> set (map fst ?b) \<longleftrightarrow> 0 < wins_of v p"
    using keys_total_wins [of v]
    by (simp only: total_wins_def keys_add_fill0 set_index_union) blast
  ultimately show ?thesis
    unfolding total_wins_def by (simp only: map_of_add_fill0)
qed

lemma wins_le_games: "wins_of v p \<le> games_of v p"
proof -
  have "length (filter (\<lambda>g. winner g = Some ''White'' \<and> white_id g = Some p) v)
          \<le> length (filter (\<lambda>g. white_id g = Some p) v)"
    using length_filter_le [of "\<lambda>g. winner g = Some ''White''" "filter (\<lambda>g. white_id g = Some p) v"]
    by (simp add: conj_commute)
  moreover have "length (filter (\<lambda>g. winner g = Some ''Black'' \<and> black_id g = Some p) v)
          \<le> length (filter (\<lambda>g. black_id g = Some p) v)"
    using length_filter_le [of "\<lambda>g. winner g = Some ''Black''" "filter (\<lambda>g. black_id g = Some p) v"]
    by (simp add: conj_commute)
  ultimately show ?thesis
    by (simp add: wins_of_def games_of_def)
qed


lemma distinct_keys_total_games: "distinct (map fst (total_games v))"
  unfolding total_games_def keys_add_fill0
  by (intro distinct_index_union map_fst_value_counts_distinct)

lemma distinct_keys_total_wins: "distinct (map fst (total_wins v))"
  unfolding total_wins_def keys_add_fill0
  by (intro distinct_index_union map_fst_value_counts_distinct)

lemma winrate_tabulate:
  "winrate v =
     map (\<lambda>k. (k, map_option (\<lambda>x. float64 (x * 100)) (div_aligned (map_of (total_wins v) k) (map_of (total_games v) k))))
       (index_union (map fst (total_wins v)) (map fst (total_games v)))"
  by (simp add: winrate_def times100_def series_div_def)

lemma keys_winrate: "set (map fst (winrate v)) = {p. 0 < games_of v p}"
proof -
  have "{p. 0 < wins_of v p} \<subseteq> {p. 0 < games_of v p}"
    using wins_le_games [of v] by (auto intro: less_le_trans)
  then show ?thesis
    by (simp add: winrate_tabulate o_def set_index_union keys_total_wins [simplified]
        keys_total_games [simplified] Un_absorb1)
qed

lemma distinct_keys_winrate: "distinct (map fst (winrate v))"
  by (simp add: winrate_tabulate o_def distinct_index_union
      distinct_keys_total_wins distinct_keys_total_games)

lemma map_of_winrate:
  "map_of (winrate v) p =
     (if 0 < games_of v p
      then Some (if 0 < wins_of v p then Some (rate_of v p) else None)
      else None)"
proof -
  have k: "p \<in> set (index_union (map fst (total_wins v)) (map fst (total_games v)))
             \<longleftrightarrow> 0 < games_of v p"
    using keys_winrate [of v] by (simp add: winrate_tabulate o_def)
  have "map_option (\<lambda>x. float64 (x * 100))
               (div_aligned (map_of (total_wins v) p) (map_of (total_games v) p)) =
             (if 0 < wins_of v p then Some (rate_of v p) else None)"
    using wins_le_games [of v p]
    by (auto simp: map_of_total_wins map_of_total_games div_aligned_def rate_of_def)
  with k show ?thesis
    unfolding winrate_tabulate by (simp only: map_of_tabulate)
qed

lemma dropna_rows_tabulate:
  "dropna_rows (map (\<lambda>k. (k, A k, B k)) ks) =
     map (\<lambda>k. (k, the (A k), the (B k))) (filter (\<lambda>k. A k \<noteq> None \<and> B k \<noteq> None) ks)"
proof (induction ks)
  case Nil
  show ?case by simp
next
  case (Cons k ks)
  then show ?case
    by (cases "A k"; cases "B k") simp_all
qed

lemma stats_rows:
  "\<exists>ks. distinct ks \<and> set ks = {p. 0 < wins_of v p} \<and>
        dropna_rows (stats_frame v) = map (stats_row v) ks"
proof -
  let ?idx = "index_union (map fst (total_games v)) (map fst (winrate v))"
  let ?A = "\<lambda>k. map_of (total_games v) k"
  let ?B = "\<lambda>k. Option.bind (map_of (winrate v) k) id"
  let ?ks = "filter (\<lambda>k. ?A k \<noteq> None \<and> ?B k \<noteq> None) ?idx"
  have idx: "set ?idx = {p. 0 < games_of v p}" "distinct ?idx"
    using keys_total_games [of v] keys_winrate [of v]
    by (simp_all only: set_index_union distinct_index_union
        distinct_keys_total_games distinct_keys_winrate) auto
  have sel: "?A k \<noteq> None \<and> ?B k \<noteq> None \<longleftrightarrow> 0 < wins_of v k" for k
    using wins_le_games [of v k] by (auto simp: map_of_total_games map_of_winrate)
  have wg: "0 < games_of v p" if "0 < wins_of v p" for p
    using that wins_le_games [of v p] by simp
  have "set ?ks = {p. 0 < wins_of v p}"
    using idx(1) sel wg by auto
  moreover have "distinct ?ks"
    using idx(2) by simp
  moreover have "map (\<lambda>k. (k, the (?A k), the (?B k))) ?ks = map (stats_row v) ?ks"
  proof (rule map_cong [OF refl])
    fix k assume "k \<in> set ?ks"
    then have "0 < wins_of v k" using sel by simp
    then show "(k, the (?A k), the (?B k)) = stats_row v k"
      using wg [of k] by (simp add: map_of_total_games map_of_winrate stats_row_def)
  qed
  then have "dropna_rows (stats_frame v) = map (stats_row v) ?ks"
    unfolding stats_frame_def by (simp only: dropna_rows_tabulate)
  ultimately show ?thesis by blast
qed


lemma ranked_players:
  "\<exists>rs. player_stats_head n v = take n rs \<and>
        distinct (map fst rs) \<and>
        set rs = stats_row v ` {p. 0 < wins_of v p} \<and>
        length rs = card {p. 0 < wins_of v p} \<and>
        sorted_wrt (\<lambda>a b. fst (snd b) \<le> fst (snd a)) rs"
proof -
  obtain ks where ks: "distinct ks" "set ks = {p. 0 < wins_of v p}"
    "dropna_rows (stats_frame v) = map (stats_row v) ks"
    using stats_rows [of v] by blast
  let ?rs = "sort_games_desc (map (stats_row v) ks)"
  have fst_row: "map fst (map (stats_row v) ks) = ks"
    by (simp add: o_def stats_row_def)
  have "distinct (map fst (map (stats_row v) ks))"
    using ks(1) by (simp only: fst_row)
  then have "distinct (map fst ?rs)"
    unfolding sort_games_desc_def
    by (metis (no_types, lifting) distinct_map distinct_sort set_sort)
  moreover have "set ?rs = stats_row v ` {p. 0 < wins_of v p}"
    using ks(2) by (simp add: sort_games_desc_def)
  moreover have "length ?rs = card {p. 0 < wins_of v p}"
    using ks(1,2) distinct_card [of ks] by (simp add: sort_games_desc_def)
  moreover have "sorted_wrt (\<lambda>a b. fst (snd b) \<le> fst (snd a)) ?rs"
    unfolding sort_games_desc_def
    by (rule sorted_desc_sort_key [of "\<lambda>r. fst (snd r)"])
  moreover have "player_stats_head n v = take n ?rs"
    by (simp add: player_stats_head_def ks(3))
  ultimately show ?thesis by blast
qed

lemma player_stats_head_rows:
  "distinct (map fst (player_stats_head n v)) \<and>
   (\<forall>(p, g, w) \<in> set (player_stats_head n v).
      0 < wins_of v p \<and> g = games_of v p \<and> w = rate_of v p) \<and>
   sorted_wrt (\<lambda>a b. fst (snd b) \<le> fst (snd a)) (player_stats_head n v) \<and>
   length (player_stats_head n v) = min n (card {p. 0 < wins_of v p}) \<and>
   (\<forall>p. 0 < wins_of v p \<longrightarrow> p \<notin> fst ` set (player_stats_head n v) \<longrightarrow>
      (\<forall>(p', g', w') \<in> set (player_stats_head n v). games_of v p \<le> g'))"
proof -
  obtain rs where r: "player_stats_head n v = take n rs"
    and d: "distinct (map fst rs)"
    and e: "set rs = stats_row v ` {p. 0 < wins_of v p}"
    and l: "length rs = card {p. 0 < wins_of v p}"
    and s: "sorted_wrt (\<lambda>a b. fst (snd b) \<le> fst (snd a)) rs"
    using ranked_players [of n v] by blast
  have sub: "set (player_stats_head n v) \<subseteq> set rs"
    unfolding r by (rule set_take_subset)
  have c1: "distinct (map fst (player_stats_head n v))"
    unfolding r take_map [symmetric] using d by (rule distinct_take)
  have c2: "\<forall>(p, g, w) \<in> set (player_stats_head n v).
      0 < wins_of v p \<and> g = games_of v p \<and> w = rate_of v p"
    using sub e by (auto simp: stats_row_def)
  have c3: "sorted_wrt (\<lambda>a b. fst (snd b) \<le> fst (snd a)) (player_stats_head n v)"
    unfolding r using s by (rule sorted_wrt_take)
  have c4: "length (player_stats_head n v) = min n (card {p. 0 < wins_of v p})"
    unfolding r by (simp add: l min.commute)
  have c5: "\<forall>p. 0 < wins_of v p \<longrightarrow> p \<notin> fst ` set (player_stats_head n v) \<longrightarrow>
      (\<forall>(p', g', w') \<in> set (player_stats_head n v). games_of v p \<le> g')"
  proof (intro allI impI ballI)
    fix p y
    assume pos: "0 < wins_of v p"
      and out: "p \<notin> fst ` set (player_stats_head n v)"
      and y: "y \<in> set (player_stats_head n v)"
    from pos have "stats_row v p \<in> set rs"
      by (simp add: e)
    moreover from out have "stats_row v p \<notin> set (take n rs)"
      unfolding r by (force simp: stats_row_def)
    ultimately have "fst (snd (stats_row v p)) \<le> fst (snd y)"
      using take_sorted_top [of "\<lambda>r. fst (snd r)" rs "stats_row v p" n y] s y
      unfolding r by simp
    then show "case y of (p', g', w') \<Rightarrow> games_of v p \<le> g'"
      by (simp add: case_prod_beta stats_row_def)
  qed
  from c1 c2 c3 c4 c5 show ?thesis by blast
qed

text \<open>
  A player without a win is in no row of the statistics, whatever the number of games
  the player has.
\<close>

lemma player_stats_winless_dropped:
  assumes "wins_of v p = 0"
  shows "p \<notin> fst ` set (player_stats_head n v)"
proof
  assume "p \<in> fst ` set (player_stats_head n v)"
  then obtain g w where "(p, g, w) \<in> set (player_stats_head n v)"
    by force
  with player_stats_head_rows [of n v] have "0 < wins_of v p"
    by blast
  with assms show False by simp
qed


end
